theory Spec2Isabelle
  imports Main "HOL-Library.Sublist"
begin

section \<open>IncomingStreamTrackMirrored: data model\<close>

text \<open>
  The class \<^verbatim>\<open>IncomingStreamTrackMirrored\<close> of \<^verbatim>\<open>lib/IncomingStreamTrackMirrored.js\<close>
  mirrors an incoming track. Its collaborators (the original track, the native
  multiplexer and depacketizer, the receiver, the event emitter) are objects outside
  the class; every call the class makes on one of them is appended to a trace, in
  program order. The mirror's own fields are a record, a \<^verbatim>\<open>null\<close> reference is
  \<open>None\<close>, and a statement that throws is the result \<open>Inl TypeError\<close> together with
  the state reached when it threw. The emitter's list of registered listeners is a
  field of the mirror; \<^verbatim>\<open>emit\<close> calls the listeners of the event at once, in the order of
  their registration, before the statement after it runs.
\<close>

text \<open>
  \<open>TypeError\<close>: a property of \<^verbatim>\<open>null\<close> or \<^verbatim>\<open>undefined\<close> was read. \<open>ListenerError\<close>: what a
  listener threw, which \<^verbatim>\<open>emit\<close> lets through to the method that called it.
\<close>

datatype error = TypeError | ListenerError

text \<open>JavaScript values returned by the delegated queries.\<close>

datatype jsval = Undefined | Str string | Num int | Obj "(string \<times> jsval) list"

type_synonym handle = nat
type_synonym enc_id = string

text \<open>
  \<^verbatim>\<open>encoding.source\<close> of an encoding of the original track: a native packet source,
  with its identity and \<^verbatim>\<open>media.ssrc\<close>.
\<close>

record packet_source =
  ps_handle :: handle
  ps_ssrc :: nat

text \<open>An encoding of the original track: \<^verbatim>\<open>encoding.id\<close>, \<^verbatim>\<open>encoding.source\<close>.\<close>

record track_encoding =
  te_id :: enc_id
  te_source :: packet_source

text \<open>
  Modelled from the spec: the original track (\<^verbatim>\<open>IncomingStreamTrack\<close>, the SourceTrack)
  is not in the source file. It has a map \<^verbatim>\<open>encodings\<close> from encoding id to encoding
  (a JavaScript \<^verbatim>\<open>Map\<close>, kept in insertion order), a \<^verbatim>\<open>receiver\<close>, and six query
  methods; each query is modelled as returning the field of that name.
\<close>

record source_track =
  st_encodings :: "(enc_id \<times> track_encoding) list"
  st_receiver :: handle
  st_getStats :: jsval
  st_getActiveLayers :: jsval
  st_getId :: jsval
  st_getTrackInfo :: jsval
  st_getSSRCs :: jsval
  st_getMedia :: jsval

text \<open>
  Modelled from the spec: \<^verbatim>\<open>Native.RTPIncomingMediaStreamMultiplexer\<close> (the
  DuplicationBuffer) is not in the source file; \<^verbatim>\<open>new
  Native.RTPIncomingMediaStreamMultiplexer(ssrc,timeService)\<close> is a fresh object bound to
  that SSRC (its \<^verbatim>\<open>media.ssrc\<close>) and that time service.
\<close>

record multiplexer =
  mux_handle :: handle
  mux_ssrc :: nat
  mux_time :: handle

text \<open>
  Modelled from the spec: \<^verbatim>\<open>Native.RTPIncomingMediaStreamDepacketizer\<close> (the
  FrameAssembler) is not in the source file; \<^verbatim>\<open>new
  Native.RTPIncomingMediaStreamDepacketizer(source)\<close> is a fresh object bound to
  \<^verbatim>\<open>source\<close>.
\<close>

record depacketizer =
  dep_handle :: handle
  dep_source :: multiplexer

text \<open>The value stored in \<^verbatim>\<open>this.encodings\<close>: \<^verbatim>\<open>{id, source, depacketizer}\<close>.\<close>

record encoding_mirror =
  em_id :: enc_id
  em_source :: multiplexer
  em_depacketizer :: depacketizer

text \<open>
  A listener is a function given to \<^verbatim>\<open>on\<close> or \<^verbatim>\<open>once\<close>: its identity, and whether it
  returns or throws when it is called. What else a listener does is outside the model;
  in particular a listener does not call the mirror.
\<close>

record listener =
  l_id :: nat
  l_throws :: bool

text \<open>
  An entry of the emitter: the event name, the listener, and whether it was registered
  with \<^verbatim>\<open>once\<close>.
\<close>

record registration =
  r_event :: string
  r_listener :: listener
  r_once :: bool

text \<open>
  The calls the class makes on its collaborators. The two notifications forwarded to
  the original track and the events given to the emitter carry the value that
  \<^verbatim>\<open>this.counter\<close> has at the moment of the call (the emitter passes \<^verbatim>\<open>this\<close> to the
  listeners), so that the trace shows where in the method body the counter is updated.
  \<open>Invoke\<close> is the call of a listener, by its identity, during an \<^verbatim>\<open>emit\<close>.
\<close>

datatype action =
    NewMultiplexer multiplexer
  | AddListener packet_source multiplexer
  | NewDepacketizer depacketizer
  | TrackQuery nat string
  | TrackAttached nat int
  | TrackDetached nat int
  | Emit string int
  | Invoke nat
  | SendPLI handle nat
  | RemoveListener packet_source multiplexer
  | StopSource multiplexer
  | StopDepacketizer depacketizer

text \<open>
  Everything outside the mirror: the store of original tracks (a reference is a
  number, and every reference denotes an object), the allocator of native objects, and
  the trace.
\<close>

record world =
  tracks :: "nat \<Rightarrow> source_track"
  next_handle :: handle
  trace :: "action list"

text \<open>
  The fields of the mirror. \<^verbatim>\<open>this.counter\<close> is a JavaScript number that only takes
  integer values here; it is an \<open>int\<close> (it is not bounded below, and counts beyond
  \<open>2^53\<close>, where a JavaScript number is no longer exact, are not covered).
  \<^verbatim>\<open>this.emitter\<close> is the list of the registrations it holds, oldest first.
\<close>

record mirror =
  track :: "nat option"
  receiver :: "handle option"
  counter :: int
  encodings :: "(enc_id \<times> encoding_mirror) list"
  emitter :: "registration list"

type_synonym state = "mirror \<times> world"

section \<open>JavaScript Map\<close>

text \<open>
  A \<^verbatim>\<open>Map\<close> keeps its entries in insertion order; \<^verbatim>\<open>set\<close> on a key that is present
  replaces the value in place.
\<close>

fun map_set :: "'k \<Rightarrow> 'v \<Rightarrow> ('k \<times> 'v) list \<Rightarrow> ('k \<times> 'v) list" where
  "map_set k v [] = [(k, v)]"
| "map_set k v ((k', v') # kvs) =
     (if k' = k then (k, v) # kvs else (k', v') # map_set k v kvs)"

definition map_get :: "('k \<times> 'v) list \<Rightarrow> 'k \<Rightarrow> 'v option" where
  "map_get kvs k = map_of kvs k"

definition map_values :: "('k \<times> 'v) list \<Rightarrow> 'v list" where
  "map_values kvs = map snd kvs"

definition map_keys :: "('k \<times> 'v) list \<Rightarrow> 'k list" where
  "map_keys kvs = map fst kvs"

section \<open>The methods\<close>

definition call :: "action \<Rightarrow> world \<Rightarrow> world" where
  "call a w = w\<lparr>trace := trace w @ [a]\<rparr>"

definition alloc :: "world \<Rightarrow> world" where
  "alloc w = w\<lparr>next_handle := Suc (next_handle w)\<rparr>"

subsection \<open>constructor\<close>

text \<open>One iteration of the loop over \<^verbatim>\<open>incomingStreamTrack.encodings.values()\<close>.\<close>

definition mirror_encoding :: "handle \<Rightarrow> track_encoding \<Rightarrow> state \<Rightarrow> state" where
  "mirror_encoding timeService encoding s =
     (case s of (m, w) \<Rightarrow>
        let source = \<lparr>mux_handle = next_handle w,
                      mux_ssrc = ps_ssrc (te_source encoding),
                      mux_time = timeService\<rparr>;
            w1 = call (NewMultiplexer source) (alloc w);
            w2 = call (AddListener (te_source encoding) source) w1;
            dep = \<lparr>dep_handle = next_handle w2, dep_source = source\<rparr>;
            w3 = call (NewDepacketizer dep) (alloc w2)
        in (m\<lparr>encodings := map_set (te_id encoding)
                   \<lparr>em_id = te_id encoding, em_source = source, em_depacketizer = dep\<rparr>
                   (encodings m)\<rparr>, w3))"

fun mirror_encodings :: "handle \<Rightarrow> track_encoding list \<Rightarrow> state \<Rightarrow> state" where
  "mirror_encodings timeService [] s = s"
| "mirror_encodings timeService (encoding # rest) s =
     mirror_encodings timeService rest (mirror_encoding timeService encoding s)"

definition constructor :: "nat \<Rightarrow> handle \<Rightarrow> world \<Rightarrow> state" where
  "constructor incomingStreamTrack timeService w =
     (let t = tracks w incomingStreamTrack;
          m = \<lparr>track = Some incomingStreamTrack,
               receiver = Some (st_receiver t),
               counter = 0,
               encodings = [],
               emitter = []\<rparr>
      in mirror_encodings timeService (map_values (st_encodings t)) (m, w))"

subsection \<open>The emitter\<close>

text \<open>
  Modelled from the documentation of Node.js: \<^verbatim>\<open>EventEmitter\<close> (module \<^verbatim>\<open>events\<close>) is not
  in the source file. \<^verbatim>\<open>on\<close> and \<^verbatim>\<open>once\<close> add a listener at the end of the list;
  \<^verbatim>\<open>removeListener\<close> removes the most recently added registration of that listener for
  that event; \<^verbatim>\<open>emit\<close> calls the listeners registered for the event in the order of their
  registration, a listener registered with \<^verbatim>\<open>once\<close> is removed just before it is called,
  and when a listener throws, the listeners after it are not called and \<^verbatim>\<open>emit\<close> throws
  what it threw. The events \<^verbatim>\<open>newListener\<close> and \<^verbatim>\<open>removeListener\<close> that the emitter itself
  emits are not modelled.
\<close>

fun emit_listeners ::
  "string \<Rightarrow> registration list \<Rightarrow> world \<Rightarrow> (error + unit) \<times> registration list \<times> world" where
  "emit_listeners name [] w = (Inr (), [], w)"
| "emit_listeners name (r # rs) w =
     (if r_event r \<noteq> name
      then (case emit_listeners name rs w of (res, rs', w') \<Rightarrow> (res, r # rs', w'))
      else if l_throws (r_listener r)
      then (Inl ListenerError, (if r_once r then rs else r # rs),
            call (Invoke (l_id (r_listener r))) w)
      else (case emit_listeners name rs (call (Invoke (l_id (r_listener r))) w) of
              (res, rs', w') \<Rightarrow> (res, (if r_once r then rs' else r # rs'), w')))"

text \<open>\<^verbatim>\<open>this.emitter.emit(name,this)\<close>.\<close>

definition emit :: "string \<Rightarrow> state \<Rightarrow> (error + unit) \<times> state" where
  "emit name s =
     (case s of (m, w) \<Rightarrow>
        (case emit_listeners name (emitter m) (call (Emit name (counter m)) w) of
           (res, rs, w') \<Rightarrow> (res, (m\<lparr>emitter := rs\<rparr>, w'))))"

fun remove_first :: "('a \<Rightarrow> bool) \<Rightarrow> 'a list \<Rightarrow> 'a list" where
  "remove_first P [] = []"
| "remove_first P (x # xs) = (if P x then xs else x # remove_first P xs)"

definition removeListener :: "string \<Rightarrow> listener \<Rightarrow> registration list \<Rightarrow> registration list" where
  "removeListener name l rs =
     rev (remove_first (\<lambda>r. r_event r = name \<and> l_id (r_listener r) = l_id l) (rev rs))"

subsection \<open>on, once, off\<close>

text \<open>
  The three methods hand their arguments to the emitter and return \<^verbatim>\<open>this\<close>; they do not
  read \<^verbatim>\<open>this.track\<close>.
\<close>

definition on :: "string \<Rightarrow> listener \<Rightarrow> state \<Rightarrow> (error + unit) \<times> state" where
  "on name l s =
     (case s of (m, w) \<Rightarrow>
        (Inr (), (m\<lparr>emitter := emitter m
           @ [\<lparr>r_event = name, r_listener = l, r_once = False\<rparr>]\<rparr>, w)))"

definition once :: "string \<Rightarrow> listener \<Rightarrow> state \<Rightarrow> (error + unit) \<times> state" where
  "once name l s =
     (case s of (m, w) \<Rightarrow>
        (Inr (), (m\<lparr>emitter := emitter m
           @ [\<lparr>r_event = name, r_listener = l, r_once = True\<rparr>]\<rparr>, w)))"

definition off :: "string \<Rightarrow> listener \<Rightarrow> state \<Rightarrow> (error + unit) \<times> state" where
  "off name l s =
     (case s of (m, w) \<Rightarrow>
        (Inr (), (m\<lparr>emitter := removeListener name l (emitter m)\<rparr>, w)))"

subsection \<open>Delegated queries\<close>

text \<open>
  \<^verbatim>\<open>return this.track.getStats();\<close> and its five siblings. Reading a property of
  \<^verbatim>\<open>null\<close> throws a TypeError.
\<close>

definition getStats :: "state \<Rightarrow> (error + jsval) \<times> state" where
  "getStats s =
     (case s of (m, w) \<Rightarrow>
        (case track m of
          None \<Rightarrow> (Inl TypeError, s)
        | Some t \<Rightarrow> (Inr (st_getStats (tracks w t)), (m, call (TrackQuery t ''getStats'') w))))"

definition getActiveLayers :: "state \<Rightarrow> (error + jsval) \<times> state" where
  "getActiveLayers s =
     (case s of (m, w) \<Rightarrow>
        (case track m of
          None \<Rightarrow> (Inl TypeError, s)
        | Some t \<Rightarrow> (Inr (st_getActiveLayers (tracks w t)),
                     (m, call (TrackQuery t ''getActiveLayers'') w))))"

definition getId :: "state \<Rightarrow> (error + jsval) \<times> state" where
  "getId s =
     (case s of (m, w) \<Rightarrow>
        (case track m of
          None \<Rightarrow> (Inl TypeError, s)
        | Some t \<Rightarrow> (Inr (st_getId (tracks w t)), (m, call (TrackQuery t ''getId'') w))))"

definition getTrackInfo :: "state \<Rightarrow> (error + jsval) \<times> state" where
  "getTrackInfo s =
     (case s of (m, w) \<Rightarrow>
        (case track m of
          None \<Rightarrow> (Inl TypeError, s)
        | Some t \<Rightarrow> (Inr (st_getTrackInfo (tracks w t)),
                     (m, call (TrackQuery t ''getTrackInfo'') w))))"

definition getSSRCs :: "state \<Rightarrow> (error + jsval) \<times> state" where
  "getSSRCs s =
     (case s of (m, w) \<Rightarrow>
        (case track m of
          None \<Rightarrow> (Inl TypeError, s)
        | Some t \<Rightarrow> (Inr (st_getSSRCs (tracks w t)), (m, call (TrackQuery t ''getSSRCs'') w))))"

definition getMedia :: "state \<Rightarrow> (error + jsval) \<times> state" where
  "getMedia s =
     (case s of (m, w) \<Rightarrow>
        (case track m of
          None \<Rightarrow> (Inl TypeError, s)
        | Some t \<Rightarrow> (Inr (st_getMedia (tracks w t)), (m, call (TrackQuery t ''getMedia'') w))))"

subsection \<open>attached, refresh, detached\<close>

definition attached :: "state \<Rightarrow> (error + unit) \<times> state" where
  "attached s =
     (case s of (m, w) \<Rightarrow>
        (case track m of
          None \<Rightarrow> (Inl TypeError, s)
        | Some t \<Rightarrow>
            let w1 = call (TrackAttached t (counter m)) w;
                m1 = m\<lparr>counter := counter m + 1\<rparr>
            in if counter m1 = 1
               then emit ''attached'' (m1, w1)
               else (Inr (), (m1, w1))))"

text \<open>
  The loop of \<^verbatim>\<open>refresh\<close> over \<^verbatim>\<open>this.encodings.values()\<close>; \<^verbatim>\<open>this.receiver.SendPLI\<close>
  throws when \<^verbatim>\<open>this.receiver\<close> is \<^verbatim>\<open>null\<close>.
\<close>

fun send_plis :: "handle option \<Rightarrow> encoding_mirror list \<Rightarrow> world \<Rightarrow> (error + unit) \<times> world" where
  "send_plis r [] w = (Inr (), w)"
| "send_plis r (encoding # rest) w =
     (case r of
        None \<Rightarrow> (Inl TypeError, w)
      | Some rcv \<Rightarrow> send_plis r rest (call (SendPLI rcv (mux_ssrc (em_source encoding))) w))"

definition refresh :: "state \<Rightarrow> (error + unit) \<times> state" where
  "refresh s =
     (case s of (m, w) \<Rightarrow>
        (case send_plis (receiver m) (map_values (encodings m)) w of
          (res, w') \<Rightarrow> (res, (m, w'))))"

definition detached :: "state \<Rightarrow> (error + unit) \<times> state" where
  "detached s =
     (case s of (m, w) \<Rightarrow>
        (case track m of
          None \<Rightarrow> (Inl TypeError, s)
        | Some t \<Rightarrow>
            let w1 = call (TrackDetached t (counter m)) w;
                m1 = m\<lparr>counter := counter m - 1\<rparr>
            in if counter m1 = 0
               then emit ''detached'' (m1, w1)
               else (Inr (), (m1, w1))))"

subsection \<open>stop\<close>

text \<open>
  The first loop, over \<^verbatim>\<open>this.track.encodings.values()\<close>:
  \<^verbatim>\<open>this.encodings.get(trackEncoding.id).source\<close> throws when the id is not a key of the
  mirror's map.
\<close>

fun remove_listeners ::
  "(enc_id \<times> encoding_mirror) list \<Rightarrow> track_encoding list \<Rightarrow> world \<Rightarrow> (error + unit) \<times> world" where
  "remove_listeners encs [] w = (Inr (), w)"
| "remove_listeners encs (trackEncoding # rest) w =
     (case map_get encs (te_id trackEncoding) of
        None \<Rightarrow> (Inl TypeError, w)
      | Some e \<Rightarrow>
          remove_listeners encs rest
            (call (RemoveListener (te_source trackEncoding) (em_source e)) w))"

text \<open>The second loop, over \<^verbatim>\<open>this.encodings.values()\<close>.\<close>

fun stop_encodings :: "encoding_mirror list \<Rightarrow> world \<Rightarrow> world" where
  "stop_encodings [] w = w"
| "stop_encodings (encoding # rest) w =
     stop_encodings rest
       (call (StopDepacketizer (em_depacketizer encoding))
          (call (StopSource (em_source encoding)) w))"

definition stop :: "state \<Rightarrow> (error + unit) \<times> state" where
  "stop s =
     (case s of (m, w) \<Rightarrow>
        (case track m of
          None \<Rightarrow> (Inr (), s)
        | Some t \<Rightarrow>
            (case remove_listeners (encodings m) (map_values (st_encodings (tracks w t))) w of
               (Inl e, w1) \<Rightarrow> (Inl e, (m, w1))
             | (Inr u, w1) \<Rightarrow>
                 (case emit ''stopped'' (m, stop_encodings (map_values (encodings m)) w1) of
                    (Inl e, s') \<Rightarrow> (Inl e, s')
                  | (Inr u', (m', w3)) \<Rightarrow>
                      (Inr (), (m'\<lparr>encodings := [], track := None, receiver := None\<rparr>, w3))))))"

section \<open>Call sequences\<close>

text \<open>
  Modelled from the spec: the owner of the original track (not in the source file) can
  add an encoding to it after the mirror was built, \<^verbatim>\<open>track.encodings.set(encoding.id,
  encoding)\<close>.
\<close>

definition add_encoding :: "nat \<Rightarrow> track_encoding \<Rightarrow> world \<Rightarrow> world" where
  "add_encoding tref encoding w =
     w\<lparr>tracks := (tracks w)(tref :=
          (tracks w tref)\<lparr>st_encodings :=
             map_set (te_id encoding) encoding (st_encodings (tracks w tref))\<rparr>)\<rparr>"

datatype query = GetStats | GetActiveLayers | GetId | GetTrackInfo | GetSSRCs | GetMedia

datatype event =
    Attached | Detached | Refresh | Stop
  | Query query
  | AddEncoding nat track_encoding
  | On string listener | Once string listener | Off string listener

text \<open>
  One event of a run: a method call on the mirror, whose caller carries on when it
  throws, or a change of an original track.
\<close>

fun step :: "event \<Rightarrow> state \<Rightarrow> state" where
  "step Attached s = snd (attached s)"
| "step Detached s = snd (detached s)"
| "step Refresh s = snd (refresh s)"
| "step Stop s = snd (stop s)"
| "step (Query GetStats) s = snd (getStats s)"
| "step (Query GetActiveLayers) s = snd (getActiveLayers s)"
| "step (Query GetId) s = snd (getId s)"
| "step (Query GetTrackInfo) s = snd (getTrackInfo s)"
| "step (Query GetSSRCs) s = snd (getSSRCs s)"
| "step (Query GetMedia) s = snd (getMedia s)"
| "step (AddEncoding tref encoding) s = (fst s, add_encoding tref encoding (snd s))"
| "step (On name l) s = snd (on name l s)"
| "step (Once name l) s = snd (once name l s)"
| "step (Off name l) s = snd (off name l s)"

fun run :: "event list \<Rightarrow> state \<Rightarrow> state" where
  "run [] s = s"
| "run (e # es) s = run es (step e s)"

text \<open>The names of the events given to the mirror's emitter, in order.\<close>

fun emitted :: "action list \<Rightarrow> string list" where
  "emitted [] = []"
| "emitted (Emit name c # as) = name # emitted as"
| "emitted (a # as) = emitted as"

text \<open>The handles of the native objects whose \<^verbatim>\<open>Stop()\<close> was called, in order.\<close>

fun released :: "action list \<Rightarrow> handle list" where
  "released [] = []"
| "released (StopSource x # as) = mux_handle x # released as"
| "released (StopDepacketizer d # as) = dep_handle d # released as"
| "released (a # as) = released as"

section \<open>A concrete track\<close>

definition enc0 :: track_encoding where
  "enc0 = \<lparr>te_id = ''0'', te_source = \<lparr>ps_handle = 100, ps_ssrc = 1000\<rparr>\<rparr>"

definition enc1 :: track_encoding where
  "enc1 = \<lparr>te_id = ''1'', te_source = \<lparr>ps_handle = 101, ps_ssrc = 1001\<rparr>\<rparr>"

definition track0 :: source_track where
  "track0 = \<lparr>st_encodings = [(''0'', enc0)], st_receiver = 7,
     st_getStats = Obj [], st_getActiveLayers = Obj [], st_getId = Str ''t'',
     st_getTrackInfo = Obj [], st_getSSRCs = Obj [(''media'', Num 1000)],
     st_getMedia = Str ''video''\<rparr>"

definition thrower :: listener where
  "thrower = \<lparr>l_id = 9, l_throws = True\<rparr>"

definition enc0r :: track_encoding where
  "enc0r = \<lparr>te_id = ''0'', te_source = \<lparr>ps_handle = 200, ps_ssrc = 1000\<rparr>\<rparr>"

definition world0 :: world where
  "world0 = \<lparr>tracks = (\<lambda>_. track0), next_handle = 0, trace = []\<rparr>"

section \<open>What the specification expects\<close>

text \<open>
  The attach count as the specification describes it: it starts at zero, \<^verbatim>\<open>attached()\<close>
  adds one and \<^verbatim>\<open>detached()\<close> takes one away.
\<close>

fun spec_count :: "int \<Rightarrow> event list \<Rightarrow> int" where
  "spec_count c [] = c"
| "spec_count c (Attached # es) = spec_count (c + 1) es"
| "spec_count c (Detached # es) = spec_count (c - 1) es"
| "spec_count c (e # es) = spec_count c es"

text \<open>
  The events the specification expects from a sequence of calls: \<open>attached\<close> once for
  each transition of the count from 0 to 1, \<open>detached\<close> once for each transition from 1
  to 0, nothing on any other transition.
\<close>

fun spec_events :: "int \<Rightarrow> event list \<Rightarrow> string list" where
  "spec_events c [] = []"
| "spec_events c (Attached # es) =
     (if c = 0 then [''attached''] else []) @ spec_events (c + 1) es"
| "spec_events c (Detached # es) =
     (if c = 1 then [''detached''] else []) @ spec_events (c - 1) es"
| "spec_events c (e # es) = spec_events c es"

text \<open>No prefix of the sequence has more \<^verbatim>\<open>detached()\<close> than \<^verbatim>\<open>attached()\<close> calls.\<close>

definition no_excess_detach :: "event list \<Rightarrow> bool" where
  "no_excess_detach es =
     list_all (\<lambda>p. count_list p Detached \<le> count_list p Attached) (prefixes es)"

definition attach_detach_only :: "event list \<Rightarrow> bool" where
  "attach_detach_only es = list_all (\<lambda>e. e = Attached \<or> e = Detached) es"

text \<open>
  The EncodingMirror the specification describes for an encoding, when the next free
  handle is \<open>h\<close>: a DuplicationBuffer bound to the encoding's SSRC and the time service,
  and a FrameAssembler bound to that DuplicationBuffer, under the encoding's id.
\<close>

definition spec_mirror :: "handle \<Rightarrow> handle \<Rightarrow> track_encoding \<Rightarrow> encoding_mirror" where
  "spec_mirror timeService h encoding =
     \<lparr>em_id = te_id encoding,
      em_source = \<lparr>mux_handle = h, mux_ssrc = ps_ssrc (te_source encoding),
                    mux_time = timeService\<rparr>,
      em_depacketizer = \<lparr>dep_handle = Suc h,
        dep_source = \<lparr>mux_handle = h, mux_ssrc = ps_ssrc (te_source encoding),
                      mux_time = timeService\<rparr>\<rparr>\<rparr>"

fun spec_mirrors :: "handle \<Rightarrow> handle \<Rightarrow> track_encoding list \<Rightarrow> (enc_id \<times> encoding_mirror) list" where
  "spec_mirrors timeService h [] = []"
| "spec_mirrors timeService h (encoding # rest) =
     (te_id encoding, spec_mirror timeService h encoding)
       # spec_mirrors timeService (Suc (Suc h)) rest"

text \<open>The calls the specification expects from the construction, in order.\<close>

fun spec_construction :: "handle \<Rightarrow> handle \<Rightarrow> track_encoding list \<Rightarrow> action list" where
  "spec_construction timeService h [] = []"
| "spec_construction timeService h (encoding # rest) =
     [NewMultiplexer (em_source (spec_mirror timeService h encoding)),
      AddListener (te_source encoding) (em_source (spec_mirror timeService h encoding)),
      NewDepacketizer (em_depacketizer (spec_mirror timeService h encoding))]
       @ spec_construction timeService (Suc (Suc h)) rest"

section \<open>What the loops of stop call\<close>

text \<open>The calls of the second loop of \<^verbatim>\<open>stop\<close>, in order.\<close>

definition stop_calls :: "encoding_mirror list \<Rightarrow> action list" where
  "stop_calls es =
     concat (map (\<lambda>e. [StopSource (em_source e), StopDepacketizer (em_depacketizer e)]) es)"

text \<open>The calls of the first loop of \<^verbatim>\<open>stop\<close> when every id is found, in order.\<close>

definition removal_calls :: "(enc_id \<times> encoding_mirror) list \<Rightarrow> track_encoding list \<Rightarrow> action list" where
  "removal_calls encs tes =
     map (\<lambda>te. RemoveListener (te_source te) (em_source (the (map_get encs (te_id te))))) tes"

section \<open>What an emit does\<close>

text \<open>
  The listeners an \<^verbatim>\<open>emit\<close> of the event calls, in order: those registered for the event,
  up to and including the first that throws.
\<close>

fun invoked :: "string \<Rightarrow> registration list \<Rightarrow> nat list" where
  "invoked name [] = []"
| "invoked name (r # rs) =
     (if r_event r \<noteq> name then invoked name rs
      else if l_throws (r_listener r) then [l_id (r_listener r)]
      else l_id (r_listener r) # invoked name rs)"

text \<open>The registrations the emitter holds after an \<^verbatim>\<open>emit\<close> of the event.\<close>

fun remaining :: "string \<Rightarrow> registration list \<Rightarrow> registration list" where
  "remaining name [] = []"
| "remaining name (r # rs) =
     (if r_event r \<noteq> name then r # remaining name rs
      else if l_throws (r_listener r) then (if r_once r then rs else r # rs)
      else if r_once r then remaining name rs
      else r # remaining name rs)"

text \<open>A listener registered for the event throws.\<close>

definition thrown :: "string \<Rightarrow> registration list \<Rightarrow> bool" where
  "thrown name rs = list_ex (\<lambda>r. r_event r = name \<and> l_throws (r_listener r)) rs"

section \<open>Basic facts about the trace\<close>

lemma emitted_append: "emitted (xs @ ys) = emitted xs @ emitted ys"
  by (induction xs rule: emitted.induct) simp_all

lemma stop_calls_simps:
  "stop_calls [] = []"
  "stop_calls (e # es) = StopSource (em_source e) # StopDepacketizer (em_depacketizer e) # stop_calls es"
  by (simp_all add: stop_calls_def)

lemma emitted_spec_construction: "emitted (spec_construction ts h tes) = []"
  by (induction tes arbitrary: h) simp_all

section \<open>The loops in closed form\<close>

lemma send_plis_receiver:
  "send_plis (Some r) es w =
     (Inr (), w\<lparr>trace := trace w @ map (\<lambda>e. SendPLI r (mux_ssrc (em_source e))) es\<rparr>)"
  by (induction es arbitrary: w) (simp_all add: call_def)

lemma stop_encodings_calls: "stop_encodings es w = w\<lparr>trace := trace w @ stop_calls es\<rparr>"
  by (induction es arbitrary: w) (simp_all add: call_def stop_calls_simps)

lemma remove_listeners_known:
  "list_all (\<lambda>te. map_get encs (te_id te) \<noteq> None) tes \<Longrightarrow>
   remove_listeners encs tes w = (Inr (), w\<lparr>trace := trace w @ removal_calls encs tes\<rparr>)"
  by (induction tes arbitrary: w) (auto simp add: call_def removal_calls_def)

lemma remove_listeners_unknown:
  "\<not> list_all (\<lambda>te. map_get encs (te_id te) \<noteq> None) tes \<Longrightarrow>
   remove_listeners encs tes w =
     (Inl TypeError,
      w\<lparr>trace := trace w @ removal_calls encs
         (takeWhile (\<lambda>te. map_get encs (te_id te) \<noteq> None) tes)\<rparr>)"
  by (induction tes arbitrary: w) (auto simp add: call_def removal_calls_def)

section \<open>The emitter in closed form\<close>

lemma emit_listeners_eq:
  "emit_listeners name rs w =
     (if thrown name rs then Inl ListenerError else Inr (), remaining name rs,
      w\<lparr>trace := trace w @ map Invoke (invoked name rs)\<rparr>)"
  by (induction rs arbitrary: w) (simp_all add: thrown_def call_def)

lemma emit_eq:
  "emit name (m, w) =
     (if thrown name (emitter m) then Inl ListenerError else Inr (),
      (m\<lparr>emitter := remaining name (emitter m)\<rparr>,
       w\<lparr>trace := trace w @ Emit name (counter m) # map Invoke (invoked name (emitter m))\<rparr>))"
  by (simp add: emit_def emit_listeners_eq call_def)

lemma thrown_Nil [simp]: "\<not> thrown name []"
  by (simp add: thrown_def)

lemma no_listeners:
  "filter (\<lambda>r. r_event r = name) rs = [] \<Longrightarrow>
   remaining name rs = rs \<and> invoked name rs = [] \<and> \<not> thrown name rs"
  by (induction rs) (auto simp add: thrown_def split: if_splits)

section \<open>The methods in closed form\<close>

lemma attached_live:
  "track m = Some t \<Longrightarrow>
   attached (m, w) =
     (if counter m + 1 = 1 \<and> thrown ''attached'' (emitter m) then Inl ListenerError else Inr (),
      (m\<lparr>counter := counter m + 1,
         emitter := (if counter m + 1 = 1 then remaining ''attached'' (emitter m) else emitter m)\<rparr>,
       w\<lparr>trace := trace w @ TrackAttached t (counter m)
          # (if counter m + 1 = 1
             then Emit ''attached'' (counter m + 1) # map Invoke (invoked ''attached'' (emitter m))
             else [])\<rparr>))"
  by (simp add: attached_def emit_eq call_def)

lemma detached_live:
  "track m = Some t \<Longrightarrow>
   detached (m, w) =
     (if counter m - 1 = 0 \<and> thrown ''detached'' (emitter m) then Inl ListenerError else Inr (),
      (m\<lparr>counter := counter m - 1,
         emitter := (if counter m - 1 = 0 then remaining ''detached'' (emitter m) else emitter m)\<rparr>,
       w\<lparr>trace := trace w @ TrackDetached t (counter m)
          # (if counter m - 1 = 0
             then Emit ''detached'' (counter m - 1) # map Invoke (invoked ''detached'' (emitter m))
             else [])\<rparr>))"
  by (simp add: detached_def emit_eq call_def)

lemma attached_stopped: "track m = None \<Longrightarrow> attached (m, w) = (Inl TypeError, (m, w))"
  by (simp add: attached_def)

lemma detached_stopped: "track m = None \<Longrightarrow> detached (m, w) = (Inl TypeError, (m, w))"
  by (simp add: detached_def)

lemma refresh_receiver:
  "receiver m = Some r \<Longrightarrow>
   refresh (m, w) =
     (Inr (), (m, w\<lparr>trace := trace w
        @ map (\<lambda>e. SendPLI r (mux_ssrc (em_source e))) (map_values (encodings m))\<rparr>))"
  by (simp add: refresh_def send_plis_receiver)

lemma refresh_empty: "encodings m = [] \<Longrightarrow> refresh (m, w) = (Inr (), (m, w))"
  by (simp add: refresh_def map_values_def)

lemma refresh_mirror: "fst (snd (refresh (m, w))) = m"
  by (simp add: refresh_def split: prod.splits)

lemma stop_stopped: "track m = None \<Longrightarrow> stop (m, w) = (Inr (), (m, w))"
  by (simp add: stop_def)

lemma stop_known:
  "track m = Some t \<Longrightarrow>
   list_all (\<lambda>te. map_get (encodings m) (te_id te) \<noteq> None)
     (map_values (st_encodings (tracks w t))) \<Longrightarrow>
   stop (m, w) =
     (if thrown ''stopped'' (emitter m)
      then (Inl ListenerError,
        (m\<lparr>emitter := remaining ''stopped'' (emitter m)\<rparr>,
         w\<lparr>trace := trace w
            @ removal_calls (encodings m) (map_values (st_encodings (tracks w t)))
            @ stop_calls (map_values (encodings m))
            @ Emit ''stopped'' (counter m) # map Invoke (invoked ''stopped'' (emitter m))\<rparr>))
      else (Inr (),
        (m\<lparr>emitter := remaining ''stopped'' (emitter m),
           encodings := [], track := None, receiver := None\<rparr>,
         w\<lparr>trace := trace w
            @ removal_calls (encodings m) (map_values (st_encodings (tracks w t)))
            @ stop_calls (map_values (encodings m))
            @ Emit ''stopped'' (counter m) # map Invoke (invoked ''stopped'' (emitter m))\<rparr>)))"
  by (simp add: stop_def remove_listeners_known stop_encodings_calls emit_eq)

lemma stop_unknown:
  "track m = Some t \<Longrightarrow>
   \<not> list_all (\<lambda>te. map_get (encodings m) (te_id te) \<noteq> None)
     (map_values (st_encodings (tracks w t))) \<Longrightarrow>
   stop (m, w) =
     (Inl TypeError, (m,
        w\<lparr>trace := trace w @ removal_calls (encodings m)
           (takeWhile (\<lambda>te. map_get (encodings m) (te_id te) \<noteq> None)
              (map_values (st_encodings (tracks w t))))\<rparr>))"
  by (simp add: stop_def remove_listeners_unknown)

lemma query_stopped:
  "track m = None \<Longrightarrow> snd (getStats (m, w)) = (m, w) \<and> snd (getActiveLayers (m, w)) = (m, w)
     \<and> snd (getId (m, w)) = (m, w) \<and> snd (getTrackInfo (m, w)) = (m, w)
     \<and> snd (getSSRCs (m, w)) = (m, w) \<and> snd (getMedia (m, w)) = (m, w)"
  by (simp add: getStats_def getActiveLayers_def getId_def getTrackInfo_def getSSRCs_def
      getMedia_def)

lemma query_live:
  "track m = Some t \<Longrightarrow>
   step (Query q) (m, w) = (m, w\<lparr>trace := trace w @ [TrackQuery t
      (case q of GetStats \<Rightarrow> ''getStats'' | GetActiveLayers \<Rightarrow> ''getActiveLayers''
       | GetId \<Rightarrow> ''getId'' | GetTrackInfo \<Rightarrow> ''getTrackInfo'' | GetSSRCs \<Rightarrow> ''getSSRCs''
       | GetMedia \<Rightarrow> ''getMedia'')]\<rparr>)"
  by (cases q)
    (simp_all add: getStats_def getActiveLayers_def getId_def getTrackInfo_def getSSRCs_def
      getMedia_def call_def)

section \<open>A stopped mirror stays stopped\<close>

lemma step_stopped:
  "track (fst s) = None \<Longrightarrow>
   track (fst (step e s)) = None \<and> receiver (fst (step e s)) = receiver (fst s)
   \<and> counter (fst (step e s)) = counter (fst s)
   \<and> encodings (fst (step e s)) = encodings (fst s)"
proof (cases s)
  case (Pair m w)
  assume "track (fst s) = None"
  with Pair have n: "track m = None" by simp
  show ?thesis
  proof (cases e)
    case (Query q)
    with Pair n query_stopped [of m w] show ?thesis by (cases q) simp_all
  qed (use Pair n in \<open>simp_all add: attached_stopped detached_stopped stop_stopped
      refresh_mirror on_def once_def off_def\<close>)
qed

lemma run_stopped:
  "track (fst s) = None \<Longrightarrow>
   track (fst (run es s)) = None \<and> receiver (fst (run es s)) = receiver (fst s)
   \<and> counter (fst (run es s)) = counter (fst s)
   \<and> encodings (fst (run es s)) = encodings (fst s)"
proof (induction es arbitrary: s)
  case Nil
  then show ?case by simp
next
  case (Cons e es)
  from step_stopped [OF Cons.prems, of e] Cons.IH [of "step e s"] show ?case by simp
qed

section \<open>The map built by the constructor\<close>

lemma map_set_fresh: "k \<notin> set (map_keys kvs) \<Longrightarrow> map_set k v kvs = kvs @ [(k, v)]"
  by (induction kvs) (auto simp add: map_keys_def)

lemma map_keys_map_set_list:
  "map_keys (map_set k v kvs) = (if k \<in> set (map_keys kvs) then map_keys kvs else map_keys kvs @ [k])"
  by (induction kvs) (force simp add: map_keys_def)+

lemma map_keys_map_set: "set (map_keys (map_set k v kvs)) = insert k (set (map_keys kvs))"
  by (auto simp add: map_keys_map_set_list)

lemma mirror_encoding_eq:
  "mirror_encoding ts te (m, w) =
     (m\<lparr>encodings := map_set (te_id te) (spec_mirror ts (next_handle w) te) (encodings m)\<rparr>,
      w\<lparr>next_handle := Suc (Suc (next_handle w)),
        trace := trace w @ spec_construction ts (next_handle w) [te]\<rparr>)"
  by (simp add: mirror_encoding_def call_def alloc_def spec_mirror_def Let_def)

lemma mirror_encodings_frame:
  "track (fst (mirror_encodings ts tes (m, w))) = track m
   \<and> receiver (fst (mirror_encodings ts tes (m, w))) = receiver m
   \<and> counter (fst (mirror_encodings ts tes (m, w))) = counter m
   \<and> emitter (fst (mirror_encodings ts tes (m, w))) = emitter m
   \<and> tracks (snd (mirror_encodings ts tes (m, w))) = tracks w
   \<and> trace (snd (mirror_encodings ts tes (m, w))) = trace w @ spec_construction ts (next_handle w) tes"
  by (induction tes arbitrary: m w) (simp_all add: mirror_encoding_eq)

lemma mirror_encodings_keys:
  "set (map_keys (encodings (fst (mirror_encodings ts tes (m, w)))))
     = set (map_keys (encodings m)) \<union> te_id ` set tes"
  by (induction tes arbitrary: m w) (simp_all add: mirror_encoding_eq map_keys_map_set)

lemma mirror_encodings_distinct_ids:
  "distinct (map_keys (encodings m) @ map te_id tes) \<Longrightarrow>
   encodings (fst (mirror_encodings ts tes (m, w)))
     = encodings m @ spec_mirrors ts (next_handle w) tes"
proof (induction tes arbitrary: m w)
  case Nil
  then show ?case by simp
next
  case (Cons te tes)
  from Cons.prems have fresh: "te_id te \<notin> set (map_keys (encodings m))" by auto
  from Cons.prems have "distinct (map_keys (encodings m @ [(te_id te, spec_mirror ts (next_handle w) te)]) @ map te_id tes)"
    by (auto simp add: map_keys_def)
  with fresh Cons.IH [of "m\<lparr>encodings := encodings m @ [(te_id te, spec_mirror ts (next_handle w) te)]\<rparr>"
      "w\<lparr>next_handle := Suc (Suc (next_handle w)),
        trace := trace w @ spec_construction ts (next_handle w) [te]\<rparr>"]
  show ?case by (simp add: mirror_encoding_eq map_set_fresh)
qed

lemma constructor_frame:
  "track (fst (constructor tref ts w)) = Some tref
   \<and> receiver (fst (constructor tref ts w)) = Some (st_receiver (tracks w tref))
   \<and> counter (fst (constructor tref ts w)) = 0
   \<and> emitter (fst (constructor tref ts w)) = []
   \<and> tracks (snd (constructor tref ts w)) = tracks w
   \<and> trace (snd (constructor tref ts w))
       = trace w @ spec_construction ts (next_handle w) (map_values (st_encodings (tracks w tref)))"
  by (simp add: constructor_def Let_def mirror_encodings_frame)

lemma constructor_keys:
  "set (map_keys (encodings (fst (constructor tref ts w))))
     = te_id ` set (map_values (st_encodings (tracks w tref)))"
proof -
  have "map_keys ([] :: (enc_id \<times> encoding_mirror) list) = []" by (simp add: map_keys_def)
  then show ?thesis by (simp add: constructor_def Let_def mirror_encodings_keys)
qed

lemma constructor_distinct_ids:
  "distinct (map te_id (map_values (st_encodings (tracks w tref)))) \<Longrightarrow>
   encodings (fst (constructor tref ts w))
     = spec_mirrors ts (next_handle w) (map_values (st_encodings (tracks w tref)))"
proof -
  assume "distinct (map te_id (map_values (st_encodings (tracks w tref))))"
  moreover have "map_keys ([] :: (enc_id \<times> encoding_mirror) list) = []" by (simp add: map_keys_def)
  ultimately show ?thesis by (simp add: constructor_def Let_def mirror_encodings_distinct_ids)
qed

section \<open>What a run keeps\<close>

lemma step_frame:
  "(track (fst (step e s)) = track (fst s) \<and> receiver (fst (step e s)) = receiver (fst s)
      \<and> encodings (fst (step e s)) = encodings (fst s))
   \<or> (track (fst (step e s)) = None \<and> receiver (fst (step e s)) = None
       \<and> encodings (fst (step e s)) = [])"
proof (cases "track (fst s)")
  case None
  then show ?thesis by (simp add: step_stopped)
next
  case (Some t)
  obtain m w where s: "s = (m, w)" by (cases s)
  with Some have t: "track m = Some t" by simp
  show ?thesis
  proof (cases e)
    case Stop
    show ?thesis
    proof (cases "list_all (\<lambda>te. map_get (encodings m) (te_id te) \<noteq> None)
        (map_values (st_encodings (tracks w t)))")
      case True
      with s t Stop show ?thesis by (simp add: stop_known)
    next
      case False
      with s t Stop show ?thesis by (simp add: stop_unknown)
    qed
  qed (use s t in \<open>simp_all add: attached_live detached_live refresh_mirror query_live
      on_def once_def off_def\<close>)
qed

lemma run_frame:
  "(track (fst (run es s)) = track (fst s) \<and> receiver (fst (run es s)) = receiver (fst s)
      \<and> encodings (fst (run es s)) = encodings (fst s))
   \<or> (track (fst (run es s)) = None \<and> receiver (fst (run es s)) = None
       \<and> encodings (fst (run es s)) = [])"
proof (induction es arbitrary: s)
  case Nil
  then show ?case by simp
next
  case (Cons e es)
  from step_frame [of e s] show ?case
  proof
    assume a: "track (fst (step e s)) = track (fst s) \<and> receiver (fst (step e s)) = receiver (fst s)
      \<and> encodings (fst (step e s)) = encodings (fst s)"
    with Cons.IH [of "step e s"] show ?thesis by auto
  next
    assume a: "track (fst (step e s)) = None \<and> receiver (fst (step e s)) = None
       \<and> encodings (fst (step e s)) = []"
    with run_stopped [of "step e s" es] show ?thesis by simp
  qed
qed

lemma step_no_stop:
  "e \<noteq> Stop \<Longrightarrow> track (fst s) \<noteq> None \<Longrightarrow>
   track (fst (step e s)) = track (fst s) \<and> receiver (fst (step e s)) = receiver (fst s)
   \<and> encodings (fst (step e s)) = encodings (fst s)"
proof -
  assume e: "e \<noteq> Stop" and a: "track (fst s) \<noteq> None"
  obtain m w where s: "s = (m, w)" by (cases s)
  with a obtain t where t: "track m = Some t" by auto
  from e s t show ?thesis
    by (cases e) (simp_all add: attached_live detached_live refresh_mirror query_live
        on_def once_def off_def)
qed

lemma run_no_stop:
  "Stop \<notin> set es \<Longrightarrow> track (fst s) \<noteq> None \<Longrightarrow>
   track (fst (run es s)) = track (fst s) \<and> receiver (fst (run es s)) = receiver (fst s)
   \<and> encodings (fst (run es s)) = encodings (fst s)"
proof (induction es arbitrary: s)
  case Nil
  then show ?case by simp
next
  case (Cons e es)
  from Cons.prems have e: "e \<noteq> Stop" and es: "Stop \<notin> set es" by auto
  from step_no_stop [OF e Cons.prems(2)] Cons.IH [OF es, of "step e s"] Cons.prems(2)
  show ?case by simp
qed

lemma run_live:
  "track (fst (run es s)) \<noteq> None \<Longrightarrow>
   track (fst (run es s)) = track (fst s) \<and> receiver (fst (run es s)) = receiver (fst s)
   \<and> encodings (fst (run es s)) = encodings (fst s)"
  using run_frame [of es s] by auto

section \<open>The attach count along a run\<close>

lemma spec_count_append: "spec_count c (es @ fs) = spec_count (spec_count c es) fs"
  by (induction c es rule: spec_count.induct) simp_all

lemma spec_count_counts:
  "spec_count c es = c + int (count_list es Attached) - int (count_list es Detached)"
  by (induction c es rule: spec_count.induct) simp_all

lemma spec_events_append:
  "spec_events c (es @ fs) = spec_events c es @ spec_events (spec_count c es) fs"
  by (induction c es rule: spec_events.induct) simp_all

lemma step_counter:
  "track (fst s) \<noteq> None \<Longrightarrow> counter (fst (step e s)) = spec_count (counter (fst s)) [e]"
proof -
  assume a: "track (fst s) \<noteq> None"
  obtain m w where s: "s = (m, w)" by (cases s)
  with a obtain t where t: "track m = Some t" by auto
  show ?thesis
  proof (cases e)
    case Stop
    show ?thesis
    proof (cases "list_all (\<lambda>te. map_get (encodings m) (te_id te) \<noteq> None)
        (map_values (st_encodings (tracks w t)))")
      case True
      with s t Stop show ?thesis by (simp add: stop_known)
    next
      case False
      with s t Stop show ?thesis by (simp add: stop_unknown)
    qed
  qed (use s t in \<open>simp_all add: attached_live detached_live refresh_mirror query_live
      on_def once_def off_def\<close>)
qed

lemma run_counter_prefix:
  "\<exists>p. prefix p es \<and> counter (fst (run es s)) = spec_count (counter (fst s)) p"
proof (induction es arbitrary: s)
  case Nil
  then show ?case by simp
next
  case (Cons e es)
  show ?case
  proof (cases "track (fst s)")
    case None
    then have "counter (fst (run (e # es) s)) = counter (fst s)" by (simp only: run_stopped)
    then have "prefix [] (e # es) \<and> counter (fst (run (e # es) s)) = spec_count (counter (fst s)) []"
      by simp
    then show ?thesis by blast
  next
    case (Some t)
    then have c: "counter (fst (step e s)) = spec_count (counter (fst s)) [e]"
      by (simp add: step_counter)
    from Cons.IH [of "step e s"] obtain p where
      p: "prefix p es" "counter (fst (run es (step e s))) = spec_count (counter (fst (step e s))) p"
      by blast
    from p c have "prefix (e # p) (e # es)
        \<and> counter (fst (run (e # es) s)) = spec_count (counter (fst s)) (e # p)"
      using spec_count_append [of "counter (fst s)" "[e]" p] by simp
    then show ?thesis by blast
  qed
qed

lemma no_excess_detach_prefix:
  "no_excess_detach es \<Longrightarrow> prefix p es \<Longrightarrow> 0 \<le> spec_count 0 p"
  by (simp add: no_excess_detach_def list_all_iff in_set_prefixes spec_count_counts)

lemma attach_detach_only_prefix:
  "attach_detach_only es \<Longrightarrow> prefix p es \<Longrightarrow> attach_detach_only p"
  by (auto simp add: attach_detach_only_def list_all_iff dest: set_mono_prefix)

lemma spec_events_last:
  "e = Attached \<or> e = Detached \<Longrightarrow>
   spec_events c [e] =
     (if c = 0 \<and> spec_count c [e] = 1 then [''attached'']
      else if c = 1 \<and> spec_count c [e] = 0 then [''detached''] else [])"
  by auto

lemma run_attach_detach:
  "attach_detach_only es \<Longrightarrow> track m \<noteq> None \<Longrightarrow> emitter m = [] \<Longrightarrow>
   fst (run es (m, w)) = m\<lparr>counter := spec_count (counter m) es\<rparr>
   \<and> emitted (trace (snd (run es (m, w)))) = emitted (trace w) @ spec_events (counter m) es"
proof (induction es arbitrary: m w)
  case Nil
  then show ?case by simp
next
  case (Cons e es)
  from Cons.prems obtain t where t: "track m = Some t" by auto
  from Cons.prems have rest: "attach_detach_only es" and e: "e = Attached \<or> e = Detached"
    by (simp_all add: attach_detach_only_def)
  note q = Cons.prems(3)
  from e show ?case
  proof
    assume a: "e = Attached"
    with t q have st: "step e (m, w) = (m\<lparr>counter := counter m + 1\<rparr>,
        w\<lparr>trace := trace w @ TrackAttached t (counter m)
           # (if counter m + 1 = 1 then [Emit ''attached'' (counter m + 1)] else [])\<rparr>)"
      by (simp add: attached_live thrown_def)
    from Cons.IH [OF rest, of "m\<lparr>counter := counter m + 1\<rparr>"] t q a show ?thesis
      unfolding run.simps st by (simp add: emitted_append)
  next
    assume d: "e = Detached"
    with t q have st: "step e (m, w) = (m\<lparr>counter := counter m - 1\<rparr>,
        w\<lparr>trace := trace w @ TrackDetached t (counter m)
           # (if counter m - 1 = 0 then [Emit ''detached'' (counter m - 1)] else [])\<rparr>)"
      by (simp add: detached_live thrown_def)
    from Cons.IH [OF rest, of "m\<lparr>counter := counter m - 1\<rparr>"] t q d show ?thesis
      unfolding run.simps st by (simp add: emitted_append)
  qed
qed

section \<open>Keys, and the concrete track\<close>

lemma map_get_known: "map_get encs k \<noteq> None \<longleftrightarrow> k \<in> set (map_keys encs)"
  by (simp add: map_get_def map_keys_def map_of_eq_None_iff)

lemma all_known:
  "list_all (\<lambda>te. map_get encs (te_id te) \<noteq> None) tes \<longleftrightarrow> te_id ` set tes \<subseteq> set (map_keys encs)"
  unfolding list_all_iff map_get_known by auto

lemma spec_mirrors_ssrcs:
  "map (\<lambda>e. f (mux_ssrc (em_source e))) (map_values (spec_mirrors ts h tes))
     = map (\<lambda>te. f (ps_ssrc (te_source te))) tes"
  by (induction tes arbitrary: h) (simp_all add: map_values_def spec_mirror_def)

lemma track0_fields:
  "st_encodings track0 = [(''0'', enc0)]" "st_receiver track0 = 7"
  "st_getMedia track0 = Str ''video''" "st_getId track0 = Str ''t''"
  by (simp_all add: track0_def)

lemma ids_differ: "te_id enc0 = ''0''" "te_id enc1 = ''1''" "te_id enc0r = ''0''"
  by (simp_all add: enc0_def enc1_def enc0r_def)

lemma constructor_world0:
  "constructor 0 5 world0 =
     (\<lparr>track = Some 0, receiver = Some 7, counter = 0,
       encodings = [(''0'', spec_mirror 5 0 enc0)], emitter = []\<rparr>,
      \<lparr>tracks = (\<lambda>_. track0), next_handle = 2,
       trace = spec_construction 5 0 [enc0]\<rparr>)"
  by (simp add: constructor_def world0_def map_values_def mirror_encoding_def track0_fields
      call_def alloc_def spec_mirror_def Let_def numeral_2_eq_2 enc0_def)

section \<open>Attach and detach events\<close>

text \<open>
  C1: for every sequence of \<^verbatim>\<open>attached()\<close> and \<^verbatim>\<open>detached()\<close> calls on a freshly
  constructed mirror in which no prefix has more \<^verbatim>\<open>detached()\<close> than \<^verbatim>\<open>attached()\<close> calls,
  the events emitted are exactly those the specification expects: \<open>attached\<close> once for
  each transition of the attach count from 0 to 1, \<open>detached\<close> once for each transition
  from 1 to 0, and nothing on the other transitions; the count is the number of
  \<^verbatim>\<open>attached()\<close> calls minus the number of \<^verbatim>\<open>detached()\<close> calls, and is not negative.
  Call by call: a call emits \<open>attached\<close> when it takes the mirror's count from 0 to 1,
  \<open>detached\<close> when it takes it from 1 to 0, and nothing otherwise.
\<close>

theorem attach_detach_events:
  assumes "attach_detach_only es" and "no_excess_detach es"
  shows "emitted (trace (snd (run es (constructor tref ts w))))
           = emitted (trace w) @ spec_events 0 es
       \<and> counter (fst (run es (constructor tref ts w)))
           = int (count_list es Attached) - int (count_list es Detached)
       \<and> 0 \<le> counter (fst (run es (constructor tref ts w)))
       \<and> (\<forall>p e. prefix (p @ [e]) es \<longrightarrow>
            emitted (trace (snd (run (p @ [e]) (constructor tref ts w))))
              = emitted (trace (snd (run p (constructor tref ts w))))
                @ (if counter (fst (run p (constructor tref ts w))) = 0
                      \<and> counter (fst (run (p @ [e]) (constructor tref ts w))) = 1
                   then [''attached'']
                   else if counter (fst (run p (constructor tref ts w))) = 1
                      \<and> counter (fst (run (p @ [e]) (constructor tref ts w))) = 0
                   then [''detached''] else []))"
proof -
  obtain m w' where c: "constructor tref ts w = (m, w')" by (cases "constructor tref ts w")
  with constructor_frame [of tref ts w] have m: "track m \<noteq> None" "counter m = 0"
    and q: "emitter m = []"
    and w': "emitted (trace w') = emitted (trace w)"
    by (simp_all add: emitted_append emitted_spec_construction)
  have r: "emitted (trace (snd (run p (constructor tref ts w)))) = emitted (trace w) @ spec_events 0 p
      \<and> counter (fst (run p (constructor tref ts w))) = spec_count 0 p"
    if "attach_detach_only p" for p
    using run_attach_detach [OF that m(1) q, of w'] m(2) w' c by simp
  have "emitted (trace (snd (run (p @ [e]) (constructor tref ts w))))
              = emitted (trace (snd (run p (constructor tref ts w))))
                @ (if counter (fst (run p (constructor tref ts w))) = 0
                      \<and> counter (fst (run (p @ [e]) (constructor tref ts w))) = 1
                   then [''attached'']
                   else if counter (fst (run p (constructor tref ts w))) = 1
                      \<and> counter (fst (run (p @ [e]) (constructor tref ts w))) = 0
                   then [''detached''] else [])"
    if pe: "prefix (p @ [e]) es" for p e
  proof -
    from pe assms(1) have a: "attach_detach_only (p @ [e])"
      by (rule attach_detach_only_prefix [rotated])
    then have b: "attach_detach_only p" and e: "e = Attached \<or> e = Detached"
      by (simp_all add: attach_detach_only_def)
    from r [OF a] r [OF b] spec_events_last [OF e, of "spec_count 0 p"]
    show ?thesis
      by (simp only: spec_events_append spec_count_append) simp
  qed
  moreover from no_excess_detach_prefix [OF assms(2), of es] have "0 \<le> spec_count 0 es" by simp
  ultimately show ?thesis using r [OF assms(1)] by (simp add: spec_count_counts)
qed

theorem attach_detach_events_witness:
  "attach_detach_only [Attached, Attached, Detached, Detached]
   \<and> no_excess_detach [Attached, Attached, Detached, Detached]
   \<and> emitted (trace (snd (run [Attached, Attached, Detached, Detached] (constructor 0 5 world0))))
       = [''attached'', ''detached'']
   \<and> counter (fst (run [Attached, Attached, Detached, Detached] (constructor 0 5 world0))) = 0
   \<and> counter (fst (run [Attached, Attached] (constructor 0 5 world0))) = 2
   \<and> emitted (trace (snd (run [Attached, Attached, Detached] (constructor 0 5 world0))))
       = emitted (trace (snd (run [Attached, Attached] (constructor 0 5 world0))))"
proof -
  have a: "attach_detach_only [Attached, Attached, Detached, Detached]"
    by (simp add: attach_detach_only_def)
  have n: "no_excess_detach [Attached, Attached, Detached, Detached]"
    by (simp add: no_excess_detach_def)
  have p: "prefix ([Attached, Attached] @ [Detached]) [Attached, Attached, Detached, Detached]"
    by simp
  have c: "counter (fst (run [Attached, Attached] (constructor 0 5 world0))) = 2"
    "counter (fst (run [Attached, Attached, Detached] (constructor 0 5 world0))) = 1"
    by (simp_all add: constructor_world0 attached_live detached_live)
  note th = attach_detach_events [OF a n, of 0 5 world0]
  from th have "emitted (trace (snd (run [Attached, Attached, Detached, Detached] (constructor 0 5 world0))))
       = emitted (trace world0) @ spec_events 0 [Attached, Attached, Detached, Detached]"
    and "counter (fst (run [Attached, Attached, Detached, Detached] (constructor 0 5 world0)))
       = int (count_list [Attached, Attached, Detached, Detached] Attached)
         - int (count_list [Attached, Attached, Detached, Detached] Detached)"
    by blast+
  then have "emitted (trace (snd (run [Attached, Attached, Detached, Detached] (constructor 0 5 world0))))
       = [''attached'', ''detached'']"
    and "counter (fst (run [Attached, Attached, Detached, Detached] (constructor 0 5 world0))) = 0"
    by (simp_all add: world0_def)
  moreover from th p have "emitted (trace (snd (run ([Attached, Attached] @ [Detached]) (constructor 0 5 world0))))
       = emitted (trace (snd (run [Attached, Attached] (constructor 0 5 world0))))
         @ (if counter (fst (run [Attached, Attached] (constructor 0 5 world0))) = 0
               \<and> counter (fst (run ([Attached, Attached] @ [Detached]) (constructor 0 5 world0))) = 1
            then [''attached'']
            else if counter (fst (run [Attached, Attached] (constructor 0 5 world0))) = 1
               \<and> counter (fst (run ([Attached, Attached] @ [Detached]) (constructor 0 5 world0))) = 0
            then [''detached''] else [])"
    by blast
  then have "emitted (trace (snd (run [Attached, Attached, Detached] (constructor 0 5 world0))))
       = emitted (trace (snd (run [Attached, Attached] (constructor 0 5 world0))))"
    using c by (simp only: append.simps) simp
  ultimately show ?thesis using a n c by blast
qed

section \<open>Unbalanced detach\<close>

text \<open>
  C3, not as claimed: a \<^verbatim>\<open>detached()\<close> call at attach count zero does not leave the count
  at zero and reports nothing. On the mirror of the concrete track it returns normally,
  the count is -1 afterwards, and the only call made is the forwarded notification.
\<close>

theorem detached_at_zero_counterexample:
  "counter (fst (constructor 0 5 world0)) = 0
   \<and> fst (detached (constructor 0 5 world0)) = Inr ()
   \<and> counter (fst (snd (detached (constructor 0 5 world0)))) = - 1
   \<and> trace (snd (snd (detached (constructor 0 5 world0))))
       = trace (snd (constructor 0 5 world0)) @ [TrackDetached 0 0]"
  by (simp add: constructor_world0 detached_live)

text \<open>
  C3, amended: the attach count is never negative along a run from a freshly constructed
  mirror in which no prefix has more \<^verbatim>\<open>detached()\<close> than \<^verbatim>\<open>attached()\<close> calls; a
  \<^verbatim>\<open>detached()\<close> call at count zero on a mirror that is not stopped is neither saturated nor
  reported: it returns normally, forwards the notification, sets the count to -1 and
  emits no event.
\<close>

theorem count_negative_only_when_unbalanced:
  "(track m = Some t \<and> counter m = 0 \<longrightarrow>
      detached (m, w) =
        (Inr (), (m\<lparr>counter := - 1\<rparr>, w\<lparr>trace := trace w @ [TrackDetached t 0]\<rparr>)))
   \<and> (no_excess_detach es \<longrightarrow> 0 \<le> counter (fst (run es (constructor tref ts w0))))"
proof -
  have "0 \<le> counter (fst (run es (constructor tref ts w0)))" if n: "no_excess_detach es"
  proof -
    from run_counter_prefix [of es "constructor tref ts w0"] constructor_frame [of tref ts w0]
    obtain p where "prefix p es" "counter (fst (run es (constructor tref ts w0))) = spec_count 0 p"
      by auto
    with no_excess_detach_prefix [OF n] show ?thesis by simp
  qed
  then show ?thesis by (simp add: detached_live)
qed

theorem count_negative_only_when_unbalanced_witness:
  "track (fst (constructor 0 5 world0)) = Some 0 \<and> counter (fst (constructor 0 5 world0)) = 0
   \<and> counter (fst (snd (detached (constructor 0 5 world0)))) = - 1
   \<and> no_excess_detach [Attached, Stop, Detached]
   \<and> 0 \<le> counter (fst (run [Attached, Stop, Detached] (constructor 0 5 world0)))"
  using count_negative_only_when_unbalanced [of "fst (constructor 0 5 world0)" 0
      "snd (constructor 0 5 world0)" "[Attached, Stop, Detached]" 0 5 world0]
  by (simp add: constructor_world0 no_excess_detach_def)

section \<open>After stop\<close>

text \<open>
  C4, not as claimed: after \<^verbatim>\<open>stop()\<close>, \<^verbatim>\<open>attached()\<close> and \<^verbatim>\<open>detached()\<close> do not return
  normally. They have no stopped check: \<^verbatim>\<open>this.track\<close> is \<^verbatim>\<open>null\<close> and the call on it
  throws.
\<close>

theorem lifecycle_after_stop_counterexample:
  "fst (stop (constructor 0 5 world0)) = Inr ()
   \<and> fst (attached (snd (stop (constructor 0 5 world0)))) = Inl TypeError
   \<and> fst (detached (snd (stop (constructor 0 5 world0)))) = Inl TypeError"
  by (simp add: constructor_world0 stop_known track0_fields map_values_def
      map_get_def ids_differ attached_def detached_def thrown_def)

text \<open>
  C4, amended: after a \<^verbatim>\<open>stop()\<close> that returned normally on a mirror reached from its
  construction, and whatever is called next, \<^verbatim>\<open>stop()\<close> and \<^verbatim>\<open>refresh()\<close> return normally
  and change nothing (no call on a collaborator, no event); \<^verbatim>\<open>attached()\<close> and
  \<^verbatim>\<open>detached()\<close> change nothing and emit nothing either, but they throw a TypeError
  instead of returning.
\<close>

theorem lifecycle_after_stop:
  assumes "s0 = run es0 (constructor tref ts w0)"
    and "fst (stop s0) = Inr ()"
    and "s = run es (snd (stop s0))"
  shows "stop s = (Inr (), s) \<and> refresh s = (Inr (), s)
       \<and> attached s = (Inl TypeError, s) \<and> detached s = (Inl TypeError, s)"
proof -
  obtain m0 w0' where s0: "s0 = (m0, w0')" by (cases s0)
  have st: "track (fst (snd (stop s0))) = None \<and> encodings (fst (snd (stop s0))) = []"
  proof (cases "track m0")
    case None
    from assms(1) s0 have "run es0 (constructor tref ts w0) = (m0, w0')" by simp
    with run_frame [of es0 "constructor tref ts w0"] None have "encodings m0 = []"
      by (auto simp add: constructor_frame)
    with None s0 show ?thesis by (simp add: stop_stopped)
  next
    case (Some t)
    show ?thesis
    proof (cases "list_all (\<lambda>te. map_get (encodings m0) (te_id te) \<noteq> None)
        (map_values (st_encodings (tracks w0' t)))")
      case True
      with Some s0 assms(2) show ?thesis by (simp add: stop_known split: if_splits)
    next
      case False
      with Some s0 assms(2) show ?thesis by (simp add: stop_unknown)
    qed
  qed
  with run_stopped [of "snd (stop s0)" es]
  have n: "track (fst s) = None" "encodings (fst s) = []"
    unfolding assms(3) by simp_all
  obtain m w where s: "s = (m, w)" by (cases s)
  with n show ?thesis
    by (simp add: stop_stopped refresh_empty attached_def detached_def)
qed

theorem lifecycle_after_stop_witness:
  "fst (stop (run [Attached] (constructor 0 5 world0))) = Inr ()
   \<and> refresh (run [Detached, Refresh] (snd (stop (run [Attached] (constructor 0 5 world0)))))
       = (Inr (), run [Detached, Refresh] (snd (stop (run [Attached] (constructor 0 5 world0)))))
   \<and> attached (run [Detached, Refresh] (snd (stop (run [Attached] (constructor 0 5 world0)))))
       = (Inl TypeError, run [Detached, Refresh] (snd (stop (run [Attached] (constructor 0 5 world0)))))"
proof -
  have ok: "fst (stop (run [Attached] (constructor 0 5 world0))) = Inr ()"
    by (simp add: constructor_world0 attached_live stop_known track0_fields map_values_def
        map_get_def ids_differ thrown_def)
  from lifecycle_after_stop [OF refl ok refl, of "[Detached, Refresh]"] ok show ?thesis
    by simp
qed

section \<open>Construction\<close>

text \<open>
  C6: the keys of the map of a mirror just built are exactly the ids of the encodings
  the original track has at that moment. For each of them, in order, the constructor
  makes a multiplexer bound to the SSRC of the encoding's packet source and to the time
  service, adds it to the listeners of that packet source, and makes a depacketizer
  bound to that multiplexer; with the ids of the original track's encodings distinct (it
  keeps them in a map keyed by id), the entry stored under each id is that multiplexer
  and that depacketizer. The map stays as built while the mirror is not stopped (and
  along every run without \<^verbatim>\<open>stop()\<close>), whatever encodings are added to the original
  track afterwards.
\<close>

theorem constructor_snapshot:
  "set (map_keys (encodings (fst (constructor tref ts w))))
     = te_id ` set (map_values (st_encodings (tracks w tref)))
   \<and> trace (snd (constructor tref ts w))
     = trace w @ spec_construction ts (next_handle w) (map_values (st_encodings (tracks w tref)))
   \<and> (distinct (map te_id (map_values (st_encodings (tracks w tref)))) \<longrightarrow>
        encodings (fst (constructor tref ts w))
          = spec_mirrors ts (next_handle w) (map_values (st_encodings (tracks w tref))))
   \<and> (track (fst (run es (constructor tref ts w))) \<noteq> None \<or> Stop \<notin> set es \<longrightarrow>
        encodings (fst (run es (constructor tref ts w))) = encodings (fst (constructor tref ts w)))"
proof -
  have live: "track (fst (constructor tref ts w)) \<noteq> None"
    by (simp add: constructor_frame)
  have "encodings (fst (run es (constructor tref ts w))) = encodings (fst (constructor tref ts w))"
    if "track (fst (run es (constructor tref ts w))) \<noteq> None \<or> Stop \<notin> set es"
    using that run_live [of es "constructor tref ts w"] run_no_stop [OF _ live, of es]
    by blast
  then show ?thesis
    by (simp add: constructor_keys constructor_frame constructor_distinct_ids)
qed

theorem constructor_snapshot_witness:
  "set (map_keys (encodings (fst (constructor 0 5 world0)))) = {''0''}
   \<and> distinct (map te_id (map_values (st_encodings (tracks world0 0))))
   \<and> encodings (fst (constructor 0 5 world0)) = [(''0'', spec_mirror 5 0 enc0)]
   \<and> Stop \<notin> set [AddEncoding 0 enc1, Attached]
   \<and> encodings (fst (run [AddEncoding 0 enc1, Attached] (constructor 0 5 world0)))
       = [(''0'', spec_mirror 5 0 enc0)]"
proof -
  have w: "map_values (st_encodings (tracks world0 0)) = [enc0]" "next_handle world0 = 0"
    by (simp_all add: world0_def track0_fields map_values_def)
  have d: "distinct (map te_id (map_values (st_encodings (tracks world0 0))))"
    by (simp add: w)
  have n: "Stop \<notin> set [AddEncoding 0 enc1, Attached]" by simp
  from constructor_snapshot [of 0 5 world0 "[AddEncoding 0 enc1, Attached]"] d n
  have "set (map_keys (encodings (fst (constructor 0 5 world0))))
          = te_id ` set (map_values (st_encodings (tracks world0 0)))"
    and "encodings (fst (constructor 0 5 world0))
          = spec_mirrors 5 (next_handle world0) (map_values (st_encodings (tracks world0 0)))"
    and "encodings (fst (run [AddEncoding 0 enc1, Attached] (constructor 0 5 world0)))
          = encodings (fst (constructor 0 5 world0))"
    by blast+
  with d n show ?thesis by (simp add: w ids_differ)
qed

section \<open>Refresh\<close>

text \<open>
  C7: \<^verbatim>\<open>refresh()\<close> sends one PLI through the receiver for each entry of the mirror's
  map at the time of the call, in order, with the SSRC of that entry's multiplexer, and
  returns nothing; the mirror is unchanged. With an empty map it does nothing at all.
  Every state reached from the construction either holds the receiver of the original
  track or is stopped with an empty map, so this covers every state of the mirror; and
  while the mirror is not stopped the SSRCs are those of the encodings the original
  track had when the mirror was built (their ids being distinct).
\<close>

theorem refresh_one_pli_per_encoding:
  "(receiver m = Some r \<longrightarrow>
      refresh (m, w) =
        (Inr (), (m, w\<lparr>trace := trace w
           @ map (\<lambda>e. SendPLI r (mux_ssrc (em_source e))) (map_values (encodings m))\<rparr>)))
   \<and> (encodings m = [] \<longrightarrow> refresh (m, w) = (Inr (), (m, w)))
   \<and> (receiver (fst (run es (constructor tref ts w0))) = Some (st_receiver (tracks w0 tref))
      \<or> track (fst (run es (constructor tref ts w0))) = None
        \<and> encodings (fst (run es (constructor tref ts w0))) = [])
   \<and> (track (fst (run es (constructor tref ts w0))) \<noteq> None
        \<and> distinct (map te_id (map_values (st_encodings (tracks w0 tref)))) \<longrightarrow>
      map (\<lambda>e. SendPLI r (mux_ssrc (em_source e)))
          (map_values (encodings (fst (run es (constructor tref ts w0)))))
        = map (\<lambda>te. SendPLI r (ps_ssrc (te_source te)))
            (map_values (st_encodings (tracks w0 tref))))"
proof -
  have a: "receiver (fst (run es (constructor tref ts w0))) = Some (st_receiver (tracks w0 tref))
      \<or> track (fst (run es (constructor tref ts w0))) = None
        \<and> encodings (fst (run es (constructor tref ts w0))) = []"
    using run_frame [of es "constructor tref ts w0"] by (auto simp add: constructor_frame)
  have b: "map (\<lambda>e. SendPLI r (mux_ssrc (em_source e)))
          (map_values (encodings (fst (run es (constructor tref ts w0)))))
        = map (\<lambda>te. SendPLI r (ps_ssrc (te_source te)))
            (map_values (st_encodings (tracks w0 tref)))"
    if "track (fst (run es (constructor tref ts w0))) \<noteq> None"
      and "distinct (map te_id (map_values (st_encodings (tracks w0 tref))))"
    using that run_live [of es "constructor tref ts w0"]
    by (simp add: constructor_distinct_ids spec_mirrors_ssrcs)
  from a b show ?thesis
    by (simp add: refresh_receiver refresh_empty)
qed

theorem refresh_one_pli_per_encoding_witness:
  "receiver (fst (constructor 0 5 world0)) = Some 7
   \<and> refresh (constructor 0 5 world0)
       = (Inr (), (fst (constructor 0 5 world0),
            (snd (constructor 0 5 world0))\<lparr>trace := spec_construction 5 0 [enc0] @ [SendPLI 7 1000]\<rparr>))
   \<and> encodings (fst (snd (stop (constructor 0 5 world0)))) = []
   \<and> refresh (snd (stop (constructor 0 5 world0))) = (Inr (), snd (stop (constructor 0 5 world0)))"
proof -
  have r: "receiver (fst (constructor 0 5 world0)) = Some 7"
    by (simp add: constructor_world0)
  have e: "encodings (fst (snd (stop (constructor 0 5 world0)))) = []"
    by (simp add: constructor_world0 stop_known track0_fields map_values_def
        map_get_def ids_differ)
  from refresh_one_pli_per_encoding [of "fst (constructor 0 5 world0)" 7 "snd (constructor 0 5 world0)"] r
  have "refresh (constructor 0 5 world0) =
        (Inr (), (fst (constructor 0 5 world0), (snd (constructor 0 5 world0))\<lparr>trace := trace (snd (constructor 0 5 world0))
           @ map (\<lambda>e. SendPLI 7 (mux_ssrc (em_source e))) (map_values (encodings (fst (constructor 0 5 world0))))\<rparr>))"
    unfolding prod.collapse by blast
  moreover have "trace (snd (constructor 0 5 world0))
           @ map (\<lambda>e. SendPLI 7 (mux_ssrc (em_source e))) (map_values (encodings (fst (constructor 0 5 world0))))
         = spec_construction 5 0 [enc0] @ [SendPLI 7 1000]"
    by (simp add: constructor_world0 map_values_def spec_mirror_def enc0_def)
  moreover from refresh_one_pli_per_encoding [of "fst (snd (stop (constructor 0 5 world0)))" 7
      "snd (snd (stop (constructor 0 5 world0)))"] e
  have "refresh (snd (stop (constructor 0 5 world0))) = (Inr (), snd (stop (constructor 0 5 world0)))"
    unfolding prod.collapse by blast
  ultimately show ?thesis using r e by simp
qed

section \<open>Delegated queries\<close>

text \<open>
  C8: on a mirror that is not stopped, \<^verbatim>\<open>getStats\<close>, \<^verbatim>\<open>getActiveLayers\<close>, \<^verbatim>\<open>getId\<close>,
  \<^verbatim>\<open>getTrackInfo\<close>, \<^verbatim>\<open>getSSRCs\<close> and \<^verbatim>\<open>getMedia\<close> each return the value the method of
  the same name of the original track returns, untransformed; the mirror (attach count,
  encoding map, track and receiver references) is the same afterwards, and the only
  effect is the forwarded call.
\<close>

theorem queries_forward_unchanged:
  assumes "track m = Some t"
  shows "getStats (m, w) = (Inr (st_getStats (tracks w t)), (m, call (TrackQuery t ''getStats'') w))
       \<and> getActiveLayers (m, w) =
           (Inr (st_getActiveLayers (tracks w t)), (m, call (TrackQuery t ''getActiveLayers'') w))
       \<and> getId (m, w) = (Inr (st_getId (tracks w t)), (m, call (TrackQuery t ''getId'') w))
       \<and> getTrackInfo (m, w) =
           (Inr (st_getTrackInfo (tracks w t)), (m, call (TrackQuery t ''getTrackInfo'') w))
       \<and> getSSRCs (m, w) = (Inr (st_getSSRCs (tracks w t)), (m, call (TrackQuery t ''getSSRCs'') w))
       \<and> getMedia (m, w) = (Inr (st_getMedia (tracks w t)), (m, call (TrackQuery t ''getMedia'') w))"
  using assms
  by (simp add: getStats_def getActiveLayers_def getId_def getTrackInfo_def getSSRCs_def
      getMedia_def)

theorem queries_forward_unchanged_witness:
  "track (fst (constructor 0 5 world0)) = Some 0
   \<and> fst (getMedia (constructor 0 5 world0)) = Inr (Str ''video'')
   \<and> fst (getId (constructor 0 5 world0)) = Inr (Str ''t'')
   \<and> fst (snd (getMedia (constructor 0 5 world0))) = fst (constructor 0 5 world0)"
  using queries_forward_unchanged [of "fst (constructor 0 5 world0)" 0 "snd (constructor 0 5 world0)"]
  by (simp add: constructor_world0 track0_fields)

section \<open>Stop and the encodings of the original track\<close>

lemma added_world0:
  "run [AddEncoding 0 enc1] (constructor 0 5 world0) =
     (\<lparr>track = Some 0, receiver = Some 7, counter = 0,
       encodings = [(''0'', spec_mirror 5 0 enc0)], emitter = []\<rparr>,
      \<lparr>tracks = (\<lambda>_. track0)(0 := track0\<lparr>st_encodings := [(''0'', enc0), (''1'', enc1)]\<rparr>),
       next_handle = 2,
       trace = spec_construction 5 0 [enc0]\<rparr>)"
  by (simp add: constructor_world0 add_encoding_def track0_fields ids_differ)

lemma stop_added_world0:
  "stop (run [AddEncoding 0 enc1] (constructor 0 5 world0)) =
     (Inl TypeError,
      (\<lparr>track = Some 0, receiver = Some 7, counter = 0,
        encodings = [(''0'', spec_mirror 5 0 enc0)], emitter = []\<rparr>,
       \<lparr>tracks = (\<lambda>_. track0)(0 := track0\<lparr>st_encodings := [(''0'', enc0), (''1'', enc1)]\<rparr>),
        next_handle = 2,
        trace = spec_construction 5 0 [enc0]
          @ [RemoveListener (te_source enc0) (em_source (spec_mirror 5 0 enc0))]\<rparr>))"
  by (simp only: added_world0)
    (simp add: stop_def map_values_def map_get_def ids_differ call_def)

text \<open>
  C10: on a mirror that is not stopped, \<^verbatim>\<open>stop()\<close> returns normally only when every
  encoding id the original track has at that moment is a key of the mirror's map
  (exactly when, moreover, no listener of \<open>stopped\<close> throws), and as long as the mirror
  is not stopped those keys are the ids the original track had when the mirror was
  built. When an id is unknown, the lookup throws a TypeError at the first such
  encoding: the listeners of the encodings before it have been removed, those of the
  others have not, no \<^verbatim>\<open>Stop()\<close> was called, no event was emitted, and the mirror is
  unchanged.
\<close>

theorem stop_throws_on_added_encoding:
  assumes "track m = Some t"
  shows "(fst (stop (m, w)) = Inr () \<longleftrightarrow>
            te_id ` set (map_values (st_encodings (tracks w t))) \<subseteq> set (map_keys (encodings m))
            \<and> \<not> thrown ''stopped'' (emitter m))
       \<and> (\<not> te_id ` set (map_values (st_encodings (tracks w t))) \<subseteq> set (map_keys (encodings m)) \<longrightarrow>
            stop (m, w) = (Inl TypeError, (m,
              w\<lparr>trace := trace w @ removal_calls (encodings m)
                 (takeWhile (\<lambda>te. map_get (encodings m) (te_id te) \<noteq> None)
                    (map_values (st_encodings (tracks w t))))\<rparr>)))
       \<and> (track (fst (run es (constructor tref ts w0))) \<noteq> None \<longrightarrow>
            set (map_keys (encodings (fst (run es (constructor tref ts w0)))))
              = te_id ` set (map_values (st_encodings (tracks w0 tref))))"
proof (cases "list_all (\<lambda>te. map_get (encodings m) (te_id te) \<noteq> None)
    (map_values (st_encodings (tracks w t)))")
  case True
  from True have "te_id ` set (map_values (st_encodings (tracks w t))) \<subseteq> set (map_keys (encodings m))"
    by (simp only: all_known)
  with stop_known [OF assms True] run_live [of es "constructor tref ts w0"]
  show ?thesis by (simp add: constructor_keys)
next
  case False
  from False have "\<not> te_id ` set (map_values (st_encodings (tracks w t))) \<subseteq> set (map_keys (encodings m))"
    unfolding all_known .
  with stop_unknown [OF assms False] run_live [of es "constructor tref ts w0"]
  show ?thesis by (simp add: constructor_keys)
qed

theorem stop_throws_on_added_encoding_witness:
  "track (fst (run [AddEncoding 0 enc1] (constructor 0 5 world0))) = Some 0
   \<and> \<not> te_id ` set (map_values (st_encodings
          (tracks (snd (run [AddEncoding 0 enc1] (constructor 0 5 world0))) 0)))
        \<subseteq> set (map_keys (encodings (fst (run [AddEncoding 0 enc1] (constructor 0 5 world0)))))
   \<and> fst (stop (run [AddEncoding 0 enc1] (constructor 0 5 world0))) \<noteq> Inr ()
   \<and> set (map_keys (encodings (fst (run [AddEncoding 0 enc1] (constructor 0 5 world0))))) = {''0''}"
proof -
  let ?s = "run [AddEncoding 0 enc1] (constructor 0 5 world0)"
  have t: "track (fst ?s) = Some 0"
    by (simp only: added_world0) simp
  have k: "\<not> te_id ` set (map_values (st_encodings (tracks (snd ?s) 0)))
        \<subseteq> set (map_keys (encodings (fst ?s)))"
    by (simp only: added_world0) (simp add: map_values_def map_keys_def ids_differ)
  have w: "te_id ` set (map_values (st_encodings (tracks world0 0))) = {''0''}"
    by (simp add: world0_def track0_fields map_values_def ids_differ)
  from stop_throws_on_added_encoding [OF t, of "snd ?s" "[AddEncoding 0 enc1]" 0 5 world0] t k w
  show ?thesis unfolding prod.collapse by auto
qed

section \<open>Order of the notification and the count\<close>

text \<open>
  C9: \<^verbatim>\<open>attached()\<close> forwards the notification to the original track while the attach
  count still has its old value, then adds one, and decides on the new value whether to
  emit \<open>attached\<close>; \<^verbatim>\<open>detached()\<close> forwards first, then takes one away, and decides on the
  new value whether to emit \<open>detached\<close>. This is so whatever listeners are registered:
  they are called after the count was updated, and when one throws the count keeps its
  new value. On a stopped mirror the call on the cleared track reference throws before
  anything else: nothing is forwarded and the count is not touched.
\<close>

theorem forward_before_count:
  "(track m = Some t \<longrightarrow>
      attached (m, w) =
        (if counter m + 1 = 1 \<and> thrown ''attached'' (emitter m) then Inl ListenerError else Inr (),
         (m\<lparr>counter := counter m + 1,
            emitter := (if counter m + 1 = 1 then remaining ''attached'' (emitter m)
                        else emitter m)\<rparr>,
          w\<lparr>trace := trace w @ TrackAttached t (counter m)
             # (if counter m + 1 = 1
                then Emit ''attached'' (counter m + 1) # map Invoke (invoked ''attached'' (emitter m))
                else [])\<rparr>))
      \<and> detached (m, w) =
        (if counter m - 1 = 0 \<and> thrown ''detached'' (emitter m) then Inl ListenerError else Inr (),
         (m\<lparr>counter := counter m - 1,
            emitter := (if counter m - 1 = 0 then remaining ''detached'' (emitter m)
                        else emitter m)\<rparr>,
          w\<lparr>trace := trace w @ TrackDetached t (counter m)
             # (if counter m - 1 = 0
                then Emit ''detached'' (counter m - 1) # map Invoke (invoked ''detached'' (emitter m))
                else [])\<rparr>)))
   \<and> (track m = Some t \<and> filter (\<lambda>r. r_event r = ''attached'') (emitter m) = [] \<longrightarrow>
      attached (m, w) =
        (Inr (), (m\<lparr>counter := counter m + 1\<rparr>,
           w\<lparr>trace := trace w @ TrackAttached t (counter m)
              # (if counter m + 1 = 1 then [Emit ''attached'' (counter m + 1)] else [])\<rparr>)))
   \<and> (track m = Some t \<and> filter (\<lambda>r. r_event r = ''detached'') (emitter m) = [] \<longrightarrow>
      detached (m, w) =
        (Inr (), (m\<lparr>counter := counter m - 1\<rparr>,
           w\<lparr>trace := trace w @ TrackDetached t (counter m)
              # (if counter m - 1 = 0 then [Emit ''detached'' (counter m - 1)] else [])\<rparr>)))
   \<and> (track m = None \<longrightarrow>
      attached (m, w) = (Inl TypeError, (m, w)) \<and> detached (m, w) = (Inl TypeError, (m, w)))"
proof -
  have a: "attached (m, w) =
        (Inr (), (m\<lparr>counter := counter m + 1\<rparr>,
           w\<lparr>trace := trace w @ TrackAttached t (counter m)
              # (if counter m + 1 = 1 then [Emit ''attached'' (counter m + 1)] else [])\<rparr>))"
    if "track m = Some t" "filter (\<lambda>r. r_event r = ''attached'') (emitter m) = []"
    using that no_listeners [OF that(2)] by (simp add: attached_live)
  have d: "detached (m, w) =
        (Inr (), (m\<lparr>counter := counter m - 1\<rparr>,
           w\<lparr>trace := trace w @ TrackDetached t (counter m)
              # (if counter m - 1 = 0 then [Emit ''detached'' (counter m - 1)] else [])\<rparr>))"
    if "track m = Some t" "filter (\<lambda>r. r_event r = ''detached'') (emitter m) = []"
    using that no_listeners [OF that(2)] by (simp add: detached_live)
  from a d attached_live [of m t w] detached_live [of m t w]
    attached_stopped [of m w] detached_stopped [of m w]
  show ?thesis by blast
qed

theorem forward_before_count_witness:
  "track (fst (constructor 0 5 world0)) = Some 0
   \<and> trace (snd (snd (attached (constructor 0 5 world0)))) =
       spec_construction 5 0 [enc0] @ [TrackAttached 0 0, Emit ''attached'' 1]
   \<and> counter (fst (snd (attached (constructor 0 5 world0)))) = 1
   \<and> trace (snd (snd (detached (snd (attached (constructor 0 5 world0)))))) =
       spec_construction 5 0 [enc0] @ [TrackAttached 0 0, Emit ''attached'' 1,
          TrackDetached 0 1, Emit ''detached'' 0]
   \<and> fst (attached (run [On ''attached'' thrower] (constructor 0 5 world0))) = Inl ListenerError
   \<and> counter (fst (snd (attached (run [On ''attached'' thrower] (constructor 0 5 world0))))) = 1
   \<and> trace (snd (snd (attached (run [On ''attached'' thrower] (constructor 0 5 world0))))) =
       spec_construction 5 0 [enc0] @ [TrackAttached 0 0, Emit ''attached'' 1, Invoke 9]"
proof -
  let ?m0 = "\<lparr>track = Some 0, receiver = Some 7, counter = 0,
         encodings = [(''0'', spec_mirror 5 0 enc0)], emitter = []\<rparr>"
  let ?w0 = "\<lparr>tracks = (\<lambda>_. track0), next_handle = 2, trace = spec_construction 5 0 [enc0]\<rparr>"
  let ?m1 = "?m0\<lparr>counter := 1\<rparr>"
  let ?w1 = "?w0\<lparr>trace := spec_construction 5 0 [enc0] @ [TrackAttached 0 0, Emit ''attached'' 1]\<rparr>"
  let ?mt = "?m0\<lparr>emitter := [\<lparr>r_event = ''attached'', r_listener = thrower, r_once = False\<rparr>]\<rparr>"
  have c: "constructor 0 5 world0 = (?m0, ?w0)" by (rule constructor_world0)
  have a: "attached (?m0, ?w0) = (Inr (), (?m1, ?w1))"
    using forward_before_count [of ?m0 0 ?w0] by simp
  have d: "detached (?m1, ?w1) = (Inr (), (?m1\<lparr>counter := 0\<rparr>,
      ?w1\<lparr>trace := spec_construction 5 0 [enc0] @ [TrackAttached 0 0, Emit ''attached'' 1,
          TrackDetached 0 1, Emit ''detached'' 0]\<rparr>))"
    using forward_before_count [of ?m1 0 ?w1] by simp
  have r: "run [On ''attached'' thrower] (constructor 0 5 world0) = (?mt, ?w0)"
    by (simp add: c on_def)
  have th: "attached (?mt, ?w0) = (Inl ListenerError, (?mt\<lparr>counter := 1\<rparr>,
      ?w0\<lparr>trace := spec_construction 5 0 [enc0] @ [TrackAttached 0 0, Emit ''attached'' 1, Invoke 9]\<rparr>))"
    using forward_before_count [of ?mt 0 ?w0] by (simp add: thrown_def thrower_def)
  show ?thesis unfolding r unfolding c using a d th by simp
qed

section \<open>Stop with a listener that throws\<close>

lemma once_stopped_world0:
  "run [Once ''stopped'' thrower] (constructor 0 5 world0) =
     (\<lparr>track = Some 0, receiver = Some 7, counter = 0,
       encodings = [(''0'', spec_mirror 5 0 enc0)],
       emitter = [\<lparr>r_event = ''stopped'', r_listener = thrower, r_once = True\<rparr>]\<rparr>,
      \<lparr>tracks = (\<lambda>_. track0), next_handle = 2,
       trace = spec_construction 5 0 [enc0]\<rparr>)"
  by (simp add: constructor_world0 once_def)

lemma first_stop_world0:
  "stop (run [Once ''stopped'' thrower] (constructor 0 5 world0)) =
     (Inl ListenerError,
      (\<lparr>track = Some 0, receiver = Some 7, counter = 0,
        encodings = [(''0'', spec_mirror 5 0 enc0)], emitter = []\<rparr>,
       \<lparr>tracks = (\<lambda>_. track0), next_handle = 2,
        trace = spec_construction 5 0 [enc0]
          @ [RemoveListener (te_source enc0) (em_source (spec_mirror 5 0 enc0)),
             StopSource (em_source (spec_mirror 5 0 enc0)),
             StopDepacketizer (em_depacketizer (spec_mirror 5 0 enc0)),
             Emit ''stopped'' 0, Invoke 9]\<rparr>))"
  by (simp only: once_stopped_world0)
    (simp add: stop_known track0_fields map_values_def map_get_def ids_differ
      removal_calls_def stop_calls_simps thrown_def thrower_def)

lemma second_stop_world0:
  "stop (\<lparr>track = Some 0, receiver = Some 7, counter = 0,
        encodings = [(''0'', spec_mirror 5 0 enc0)], emitter = []\<rparr>,
       \<lparr>tracks = (\<lambda>_. track0), next_handle = 2,
        trace = spec_construction 5 0 [enc0]
          @ [RemoveListener (te_source enc0) (em_source (spec_mirror 5 0 enc0)),
             StopSource (em_source (spec_mirror 5 0 enc0)),
             StopDepacketizer (em_depacketizer (spec_mirror 5 0 enc0)),
             Emit ''stopped'' 0, Invoke 9]\<rparr>) =
     (Inr (),
      (\<lparr>track = None, receiver = None, counter = 0, encodings = [], emitter = []\<rparr>,
       \<lparr>tracks = (\<lambda>_. track0), next_handle = 2,
        trace = spec_construction 5 0 [enc0]
          @ [RemoveListener (te_source enc0) (em_source (spec_mirror 5 0 enc0)),
             StopSource (em_source (spec_mirror 5 0 enc0)),
             StopDepacketizer (em_depacketizer (spec_mirror 5 0 enc0)),
             Emit ''stopped'' 0, Invoke 9,
             RemoveListener (te_source enc0) (em_source (spec_mirror 5 0 enc0)),
             StopSource (em_source (spec_mirror 5 0 enc0)),
             StopDepacketizer (em_depacketizer (spec_mirror 5 0 enc0)),
             Emit ''stopped'' 0]\<rparr>))"
  by (simp add: stop_known track0_fields map_values_def map_get_def ids_differ
      removal_calls_def stop_calls_simps)

lemma handles_world0:
  "mux_handle (em_source (spec_mirror 5 0 enc0)) = 0"
  "dep_handle (em_depacketizer (spec_mirror 5 0 enc0)) = 1"
  by (simp_all add: spec_mirror_def)

text \<open>
  C2, broken by the code: \<^verbatim>\<open>stop()\<close> gives \<open>stopped\<close> to the emitter before it clears the
  map and the track reference. On the mirror of the concrete track, with a listener that
  throws registered by \<^verbatim>\<open>once('stopped', ...)\<close>, the first \<^verbatim>\<open>stop()\<close> throws what the
  listener threw and leaves the mirror as it was; the second \<^verbatim>\<open>stop()\<close> passes the check
  of \<^verbatim>\<open>this.track\<close> and does everything again. \<open>stopped\<close> is emitted twice, and \<^verbatim>\<open>Stop()\<close> is
  called twice on the multiplexer (handle 0) and twice on the depacketizer (handle 1).
\<close>

theorem stop_twice_after_throwing_listener:
  "fst (stop (run [Once ''stopped'' thrower] (constructor 0 5 world0))) = Inl ListenerError
   \<and> track (fst (run [Once ''stopped'' thrower, Stop] (constructor 0 5 world0))) = Some 0
   \<and> encodings (fst (run [Once ''stopped'' thrower, Stop] (constructor 0 5 world0)))
       = [(''0'', spec_mirror 5 0 enc0)]
   \<and> fst (stop (run [Once ''stopped'' thrower, Stop] (constructor 0 5 world0))) = Inr ()
   \<and> track (fst (run [Once ''stopped'' thrower, Stop, Stop] (constructor 0 5 world0))) = None
   \<and> emitted (trace (snd (run [Once ''stopped'' thrower, Stop, Stop] (constructor 0 5 world0))))
       = [''stopped'', ''stopped'']
   \<and> released (trace (snd (run [Once ''stopped'' thrower, Stop, Stop] (constructor 0 5 world0))))
       = [0, 1, 0, 1]"
proof -
  let ?s = "run [Once ''stopped'' thrower] (constructor 0 5 world0)"
  have r1: "run [Once ''stopped'' thrower, Stop] (constructor 0 5 world0) = snd (stop ?s)"
    by simp
  have r2: "run [Once ''stopped'' thrower, Stop, Stop] (constructor 0 5 world0)
      = snd (stop (snd (stop ?s)))"
    by simp
  show ?thesis
    unfolding r1 r2
    by (simp only: first_stop_world0 snd_conv fst_conv)
      (simp only: second_stop_world0, simp add: handles_world0)
qed

section \<open>The first stop\<close>

lemma replaced_world0:
  "run [AddEncoding 0 enc0r] (constructor 0 5 world0) =
     (\<lparr>track = Some 0, receiver = Some 7, counter = 0,
       encodings = [(''0'', spec_mirror 5 0 enc0)], emitter = []\<rparr>,
      \<lparr>tracks = (\<lambda>_. track0)(0 := track0\<lparr>st_encodings := [(''0'', enc0r)]\<rparr>),
       next_handle = 2,
       trace = spec_construction 5 0 [enc0]\<rparr>)"
  by (simp add: constructor_world0 add_encoding_def track0_fields ids_differ)

lemma stop_replaced_world0:
  "stop (run [AddEncoding 0 enc0r] (constructor 0 5 world0)) =
     (Inr (),
      (\<lparr>track = None, receiver = None, counter = 0, encodings = [], emitter = []\<rparr>,
       \<lparr>tracks = (\<lambda>_. track0)(0 := track0\<lparr>st_encodings := [(''0'', enc0r)]\<rparr>),
        next_handle = 2,
        trace = spec_construction 5 0 [enc0]
          @ [RemoveListener (te_source enc0r) (em_source (spec_mirror 5 0 enc0)),
             StopSource (em_source (spec_mirror 5 0 enc0)),
             StopDepacketizer (em_depacketizer (spec_mirror 5 0 enc0)),
             Emit ''stopped'' 0]\<rparr>))"
  by (simp only: replaced_world0)
    (simp add: stop_known map_values_def map_get_def ids_differ
      removal_calls_def stop_calls_simps)

text \<open>
  C5, broken by the code: the first loop of \<^verbatim>\<open>stop()\<close> runs over the encodings the
  original track has now and reads \<^verbatim>\<open>this.encodings.get(trackEncoding.id).source\<close>
  unguarded. On the mirror of the concrete track, after encoding \<open>1\<close> was added to the
  original track, the first \<^verbatim>\<open>stop()\<close> throws a TypeError once the listener of encoding
  \<open>0\<close> is removed: no \<^verbatim>\<open>Stop()\<close> is called, \<open>stopped\<close> is not emitted, and the map and the
  track reference stay. After the packet source of encoding \<open>0\<close> was replaced on the
  original track, \<^verbatim>\<open>stop()\<close> removes the multiplexer from the new packet source, and
  never from the one the constructor added it to. And with a listener of \<open>stopped\<close>
  that throws, the first \<^verbatim>\<open>stop()\<close> with every id known emits \<open>stopped\<close> and then throws:
  the map and the track reference stay, and the next \<^verbatim>\<open>stop()\<close> emits \<open>stopped\<close> again.
\<close>

theorem stop_first_call_failures:
  "track (fst (run [AddEncoding 0 enc1] (constructor 0 5 world0))) = Some 0
   \<and> fst (stop (run [AddEncoding 0 enc1] (constructor 0 5 world0))) = Inl TypeError
   \<and> emitted (trace (snd (snd (stop (run [AddEncoding 0 enc1] (constructor 0 5 world0)))))) = []
   \<and> released (trace (snd (snd (stop (run [AddEncoding 0 enc1] (constructor 0 5 world0)))))) = []
   \<and> track (fst (snd (stop (run [AddEncoding 0 enc1] (constructor 0 5 world0))))) = Some 0
   \<and> encodings (fst (snd (stop (run [AddEncoding 0 enc1] (constructor 0 5 world0)))))
       = [(''0'', spec_mirror 5 0 enc0)]
   \<and> trace (snd (snd (stop (run [AddEncoding 0 enc0r] (constructor 0 5 world0)))))
       = [NewMultiplexer (em_source (spec_mirror 5 0 enc0)),
          AddListener (te_source enc0) (em_source (spec_mirror 5 0 enc0)),
          NewDepacketizer (em_depacketizer (spec_mirror 5 0 enc0)),
          RemoveListener (te_source enc0r) (em_source (spec_mirror 5 0 enc0)),
          StopSource (em_source (spec_mirror 5 0 enc0)),
          StopDepacketizer (em_depacketizer (spec_mirror 5 0 enc0)),
          Emit ''stopped'' 0]
   \<and> te_source enc0r \<noteq> te_source enc0
   \<and> fst (stop (run [Once ''stopped'' thrower] (constructor 0 5 world0))) = Inl ListenerError
   \<and> emitted (trace (snd (snd (stop (run [Once ''stopped'' thrower] (constructor 0 5 world0))))))
       = [''stopped'']
   \<and> track (fst (snd (stop (run [Once ''stopped'' thrower] (constructor 0 5 world0))))) = Some 0
   \<and> encodings (fst (snd (stop (run [Once ''stopped'' thrower] (constructor 0 5 world0)))))
       = [(''0'', spec_mirror 5 0 enc0)]"
proof -
  have a: "track (fst (run [AddEncoding 0 enc1] (constructor 0 5 world0))) = Some 0"
    by (simp only: added_world0) simp
  have b: "te_source enc0r \<noteq> te_source enc0"
    by (simp add: enc0_def enc0r_def)
  show ?thesis
    using a b
    by (simp only: stop_added_world0 stop_replaced_world0 first_stop_world0) simp
qed

end
